theory Spec2Isabelle
  imports Main
begin

section \<open>Python values, errors and observable effects\<close>

text \<open>
  The pipe of \<^verbatim>\<open>react_langfuse_pipe.py\<close> is an asynchronous generator. What a host can
  observe of one turn is the sequence of fragments it yields, the calls it makes to the two
  notifier closures \<^verbatim>\<open>send_status\<close> and \<^verbatim>\<open>send_citation\<close>, and whether the generator
  returns or raises. The model below computes exactly that: a list of effects in program
  order and an outcome. The generator is assumed to be iterated to its end by the host.
\<close>

datatype pyval = PyNone | PyStr string | PyDict "(string \<times> pyval) list" | PyOther

text \<open>\<^verbatim>\<open>d.get(k)\<close>: the value stored under the key, \<^verbatim>\<open>None\<close> when the key is missing.\<close>

definition dict_get :: "(string \<times> pyval) list \<Rightarrow> string \<Rightarrow> pyval" where
  "dict_get d k = (case map_of d k of None \<Rightarrow> PyNone | Some v \<Rightarrow> v)"

datatype pipe_error =
    ValueError string
  | KeyError string
  | AssertionError string
  | AttributeError string
  | EmitterError
  | BackendError

datatype outcome = Completed | Raised pipe_error

datatype effect =
    Yield string
  | Status string bool
  | Citation string string string

text \<open>
  The dictionaries handed to the host's event emitter: a status event carries
  \<^verbatim>\<open>description\<close> and \<^verbatim>\<open>done\<close>; a source event carries the document list, the metadata
  list (source and the \<^verbatim>\<open>html\<close> flag) and the source name.
\<close>

datatype emitted =
    StatusDict string bool
  | SourceDict "string list" "(string \<times> bool) list" string

text \<open>
  The host's event emitter is a Python function object: it has a \<^verbatim>\<open>__closure__\<close>
  (\<^verbatim>\<open>None\<close>, or a tuple of cells whose contents are arbitrary values) and a behaviour.
  Whether a call raises may depend on everything the emitter has been called with before
  in this turn (\<open>em_raises log d\<close>: the call with \<open>d\<close>, after the calls \<open>log\<close>, raises).
\<close>

record emitter =
  em_closure :: "pyval list option"
  em_raises :: "emitted list \<Rightarrow> emitted \<Rightarrow> bool"

section \<open>\<^verbatim>\<open>extract_event_info\<close>\<close>

text \<open>The \<^verbatim>\<open>for cell in event_emitter.__closure__\<close> loop: the first cell holding a dict decides.\<close>

fun closure_info :: "pyval list \<Rightarrow> pyval \<times> pyval" where
  "closure_info [] = (PyNone, PyNone)"
| "closure_info (PyDict request_info # cells) =
     (dict_get request_info ''chat_id'', dict_get request_info ''message_id'')"
| "closure_info (_ # cells) = closure_info cells"

definition extract_event_info :: "emitter option \<Rightarrow> pyval \<times> pyval" where
  "extract_event_info event_emitter =
     (case event_emitter of
        None \<Rightarrow> (PyNone, PyNone)
      | Some e \<Rightarrow>
          (case em_closure e of
             None \<Rightarrow> (PyNone, PyNone)
           | Some cells \<Rightarrow> if cells = [] then (PyNone, PyNone) else closure_info cells))"

section \<open>The notifier closures\<close>

text \<open>
  \<^verbatim>\<open>send_status\<close> and \<^verbatim>\<open>send_citation\<close> return at once when there is no emitter and
  otherwise await the emitter with the dictionary they build. Nothing catches what the
  emitter raises. The result is the emitter's log after the call, or the error.
\<close>

definition emit :: "emitter option \<Rightarrow> emitted list \<Rightarrow> emitted \<Rightarrow> pipe_error + emitted list" where
  "emit event_emitter log d =
     (case event_emitter of
        None \<Rightarrow> Inr log
      | Some e \<Rightarrow> if em_raises e log d then Inl EmitterError else Inr (log @ [d]))"

definition send_citation ::
  "emitter option \<Rightarrow> emitted list \<Rightarrow> string \<Rightarrow> string \<Rightarrow> string \<Rightarrow> pipe_error + emitted list" where
  "send_citation event_emitter log url title content =
     emit event_emitter log (SourceDict [content] [(url, False)] title)"

definition send_status ::
  "emitter option \<Rightarrow> emitted list \<Rightarrow> string \<Rightarrow> bool \<Rightarrow> pipe_error + emitted list" where
  "send_status event_emitter log status_message done =
     emit event_emitter log (StatusDict status_message done)"

section \<open>Strings built by the loop\<close>

text \<open>\<^verbatim>\<open>str(n)\<close> for a non-negative integer: its decimal digits.\<close>

definition digit_char :: "nat \<Rightarrow> char" where
  "digit_char d =
     (if d = 0 then CHR ''0'' else if d = 1 then CHR ''1'' else if d = 2 then CHR ''2''
      else if d = 3 then CHR ''3'' else if d = 4 then CHR ''4'' else if d = 5 then CHR ''5''
      else if d = 6 then CHR ''6'' else if d = 7 then CHR ''7'' else if d = 8 then CHR ''8''
      else CHR ''9'')"

function str_nat :: "nat \<Rightarrow> string" where
  "str_nat n = (if n < 10 then [digit_char n] else str_nat (n div 10) @ [digit_char (n mod 10)])"
  by pat_completeness auto
termination
  by (relation "measure (\<lambda>n. n)") auto

declare str_nat.simps [simp del]

text \<open>
  The \<^verbatim>\<open>input\<close> and \<^verbatim>\<open>output\<close> entries of an event's data are kept as the text an f-string
  renders them to; \<^verbatim>\<open>data.get(...)\<close> of a missing entry is \<^verbatim>\<open>None\<close>, rendered \<^verbatim>\<open>None\<close>.
\<close>

definition fmt :: "string option \<Rightarrow> string" where
  "fmt v = (case v of None \<Rightarrow> ''None'' | Some s \<Rightarrow> s)"

definition quote :: string where
  "quote = [CHR 0x27]"

definition newline :: string where
  "newline = [CHR 0x0A]"

definition running_msg :: "string \<Rightarrow> string" where
  "running_msg name = ''Running tool '' @ name"

definition returned_msg :: "string \<Rightarrow> string option \<Rightarrow> string" where
  "returned_msg name out = ''Tool '' @ quote @ name @ quote @ '' returned '' @ fmt out"

definition citation_url :: "nat \<Rightarrow> string" where
  "citation_url num_tool_calls = ''Tool call '' @ str_nat num_tool_calls"

definition citation_content :: "string \<Rightarrow> string option \<Rightarrow> string option \<Rightarrow> string" where
  "citation_content name inp out =
     ''Tool '' @ quote @ name @ quote @ '' with inputs '' @ fmt inp @ '' returned '' @ fmt out"

definition failed_msg :: "string \<Rightarrow> string" where
  "failed_msg name = ''Tool '' @ quote @ name @ quote @ '' failed.''"

section \<open>The event loop of the tools path\<close>

text \<open>
  An event of \<^verbatim>\<open>astream_events\<close> has the keys \<^verbatim>\<open>event\<close>, \<^verbatim>\<open>name\<close> and \<^verbatim>\<open>data\<close>. Of the
  data the loop reads \<^verbatim>\<open>chunk\<close> (when present, its \<^verbatim>\<open>content\<close>, a string for the two
  chat back ends used), \<^verbatim>\<open>input\<close> and \<^verbatim>\<open>output\<close>.
\<close>

record event_data =
  chunk :: "string option"
  tool_input :: "string option"
  tool_output :: "string option"

record event =
  kind :: string
  name :: string
  data :: event_data

text \<open>
  The loop's variables. \<open>started_tools\<close> is a Python set of strings: its elements are
  kept here as a list without repetitions. The order in which Python walks such a set
  follows the hashes of the strings and is not the order of insertion; it enters the model
  where the set is iterated, after the loop.
\<close>

record loop_state =
  num_tool_calls :: nat
  started_tools :: "string list"

definition set_add :: "string \<Rightarrow> string list \<Rightarrow> string list" where
  "set_add x s = (if x \<in> set s then s else s @ [x])"

text \<open>
  The body of \<^verbatim>\<open>async for event in graph.astream_events(...)\<close> for one event: the effects
  in program order and either the error that ends the generator or the emitter's log and
  the loop's variables after the event.
\<close>

definition on_event ::
  "emitter option \<Rightarrow> emitted list \<Rightarrow> loop_state \<Rightarrow> event
     \<Rightarrow> effect list \<times> (pipe_error + emitted list \<times> loop_state)" where
  "on_event event_emitter log st ev =
     (if kind ev = ''on_chat_model_stream'' then
        (case chunk (data ev) of
           None \<Rightarrow> ([], Inr (log, st))
         | Some content \<Rightarrow>
             if content \<noteq> [] then ([Yield content], Inr (log, st)) else ([], Inr (log, st)))
      else if kind ev = ''on_tool_start'' then
        (case send_status event_emitter log (running_msg (name ev)) False of
           Inl err \<Rightarrow> ([Yield newline, Status (running_msg (name ev)) False], Inl err)
         | Inr log1 \<Rightarrow>
             ([Yield newline, Status (running_msg (name ev)) False],
              Inr (log1, st\<lparr>started_tools := set_add (name ev) (started_tools st)\<rparr>)))
      else if kind ev = ''on_tool_end'' then
        (let n = num_tool_calls st + 1;
             status = Status (returned_msg (name ev) (tool_output (data ev))) True;
             citation = Citation (citation_url n) (name ev)
               (citation_content (name ev) (tool_input (data ev)) (tool_output (data ev)))
         in case send_status event_emitter log
                   (returned_msg (name ev) (tool_output (data ev))) True of
              Inl err \<Rightarrow> ([status], Inl err)
            | Inr log1 \<Rightarrow>
                (case send_citation event_emitter log1 (citation_url n) (name ev)
                        (citation_content (name ev) (tool_input (data ev))
                           (tool_output (data ev))) of
                   Inl err \<Rightarrow> ([status, citation], Inl err)
                 | Inr log2 \<Rightarrow>
                     if name ev \<in> set (started_tools st)
                     then ([status, citation],
                           Inr (log2, \<lparr>num_tool_calls = n,
                                       started_tools = removeAll (name ev) (started_tools st)\<rparr>))
                     else ([status, citation], Inl (KeyError (name ev)))))
      else ([], Inr (log, st)))"

fun tools_loop ::
  "emitter option \<Rightarrow> emitted list \<Rightarrow> loop_state \<Rightarrow> event list
     \<Rightarrow> effect list \<times> (pipe_error + emitted list \<times> loop_state)" where
  "tools_loop event_emitter log st [] = ([], Inr (log, st))"
| "tools_loop event_emitter log st (ev # evs) =
     (case on_event event_emitter log st ev of
        (effs, Inl err) \<Rightarrow> (effs, Inl err)
      | (effs, Inr (log1, st1)) \<Rightarrow>
          (case tools_loop event_emitter log1 st1 evs of
             (effs1, r) \<Rightarrow> (effs @ effs1, r)))"

text \<open>
  The final \<^verbatim>\<open>for name in started_tools: await send_status(..., True)\<close>, for the names in
  the order in which the set is walked.
\<close>

fun send_failed ::
  "emitter option \<Rightarrow> emitted list \<Rightarrow> string list \<Rightarrow> effect list \<times> (pipe_error + emitted list)" where
  "send_failed event_emitter log [] = ([], Inr log)"
| "send_failed event_emitter log (nm # names) =
     (case send_status event_emitter log (failed_msg nm) True of
        Inl err \<Rightarrow> ([Status (failed_msg nm) True], Inl err)
      | Inr log1 \<Rightarrow>
          (case send_failed event_emitter log1 names of
             (effs, r) \<Rightarrow> (Status (failed_msg nm) True # effs, r)))"

text \<open>
  An asynchronous stream as the loop sees it: the items it delivers and how it ends, by
  exhaustion or by raising (a failure of the back end).
\<close>

datatype stream_end = Exhausted | StreamRaises

definition initial_state :: loop_state where
  "initial_state = \<lparr>num_tool_calls = 0, started_tools = []\<rparr>"

text \<open>
  Lines 221 to 249 of the pipe: the counter and the set are created, the events are
  consumed, and only when the stream is exhausted the names left in the set are
  reported as failed. An exception of the stream leaves the generator from inside the
  \<^verbatim>\<open>async for\<close>. The order in which the set is walked is a parameter: \<open>slot\<close> gives
  every name its place, and the names are walked by increasing place. Every order of a set
  is the order of some \<open>slot\<close>, and what is proved below is proved for every \<open>slot\<close>.
\<close>

definition tools_turn ::
  "(string \<Rightarrow> nat) \<Rightarrow> emitter option \<Rightarrow> event list \<times> stream_end \<Rightarrow> effect list \<times> outcome" where
  "tools_turn slot event_emitter stream =
     (case tools_loop event_emitter [] initial_state (fst stream) of
        (effs, Inl err) \<Rightarrow> (effs, Raised err)
      | (effs, Inr (log, st)) \<Rightarrow>
          (case snd stream of
             StreamRaises \<Rightarrow> (effs, Raised BackendError)
           | Exhausted \<Rightarrow>
               (case send_failed event_emitter log (sort_key slot (started_tools st)) of
                  (effs1, Inl err) \<Rightarrow> (effs @ effs1, Raised err)
                | (effs1, Inr log1) \<Rightarrow> (effs @ effs1, Completed))))"

section \<open>The pipe\<close>

text \<open>The valves and what \<^verbatim>\<open>setup\<close> derives from them.\<close>

record valves =
  OPENAI_BASE_URL :: string
  OPENAI_API_KEY :: string
  OLLAMA_URL :: string
  LANGFUSE_SECRET_KEY :: string
  LANGFUSE_PUBLIC_KEY :: string
  LANGFUSE_URL :: string
  MODEL_PREFIX :: string
  ENABLED_MODELS :: string

record kwargs =
  openai_kwargs :: "(string \<times> string) option"
  ollama_kwargs :: "string option"
  langfuse_kwargs :: "(string \<times> string \<times> string) option"

definition pipe_setup :: "valves \<Rightarrow> pipe_error + kwargs" where
  "pipe_setup v =
     (let oa = (if OPENAI_API_KEY v \<noteq> [] \<and> OPENAI_BASE_URL v \<noteq> []
                then Some (OPENAI_BASE_URL v, OPENAI_API_KEY v) else None);
          ol = (if OLLAMA_URL v \<noteq> [] then Some (OLLAMA_URL v) else None)
      in if oa = None \<and> ol = None then Inl (ValueError ''No API keys provided'')
         else Inr \<lparr>openai_kwargs = oa, ollama_kwargs = ol,
                   langfuse_kwargs =
                     (if LANGFUSE_SECRET_KEY v \<noteq> [] \<and> LANGFUSE_PUBLIC_KEY v \<noteq> []
                         \<and> LANGFUSE_URL v \<noteq> []
                      then Some (LANGFUSE_SECRET_KEY v, LANGFUSE_PUBLIC_KEY v, LANGFUSE_URL v)
                      else None)\<rparr>)"

text \<open>\<^verbatim>\<open>s.split(sep)\<close> for a separator of one character, and \<^verbatim>\<open>sep.join(words)\<close>.\<close>

fun split_on :: "char \<Rightarrow> string \<Rightarrow> string list" where
  "split_on sep [] = [[]]"
| "split_on sep (c # cs) =
     (if c = sep then [] # split_on sep cs
      else (case split_on sep cs of [] \<Rightarrow> [[c]] | w # ws \<Rightarrow> (c # w) # ws))"

fun join :: "string \<Rightarrow> string list \<Rightarrow> string" where
  "join sep [] = []"
| "join sep [w] = w"
| "join sep (w # ws) = w @ sep @ join sep ws"

text \<open>
  The libraries the pipe drives are parameters of the model: the constructor
  \<^verbatim>\<open>StructuredTool\<close>, which validates what it is given and may raise, the chat model's
  blocking call and its token stream, and the event stream of the agent graph built from
  the model and the wrapped tools (a failure to build the graph is a stream that raises
  before its first event). Each call receives the configuration the pipe passes, which is
  where the run id travels. \<^verbatim>\<open>ChatOpenAI\<close>, \<^verbatim>\<open>ChatOllama\<close> and \<^verbatim>\<open>CallbackHandler\<close> are
  built from the strings of the valves and kept as data.
\<close>

datatype chat_model = ChatOpenAI string "string \<times> string" | ChatOllama string string

datatype callback = CallbackHandler "string \<times> string \<times> string" "pyval option"

record config =
  callbacks :: "callback list"
  run_id :: "pyval option"

record tool_value =
  callable :: pyval
  pydantic_model :: pyval
  description :: pyval

datatype structured_tool = StructuredTool string pyval pyval pyval

record backend =
  structured_tool :: "string \<Rightarrow> tool_value \<Rightarrow> pipe_error + structured_tool"
  model_invoke :: "chat_model \<Rightarrow> pyval \<Rightarrow> config \<Rightarrow> pipe_error + string"
  model_astream :: "chat_model \<Rightarrow> pyval \<Rightarrow> config \<Rightarrow> string list \<times> stream_end"
  graph_astream_events ::
    "chat_model \<Rightarrow> structured_tool list \<Rightarrow> pyval \<Rightarrow> config \<Rightarrow> event list \<times> stream_end"

record request_body =
  model :: string
  messages :: pyval

record pipe_self =
  self_valves :: valves
  model_sources :: "(string \<times> string) list option"

text \<open>Lines 174 to 180: the model id after the first dot and the chat model for its source.\<close>

definition select_model :: "pipe_self \<Rightarrow> kwargs \<Rightarrow> request_body \<Rightarrow> pipe_error + chat_model" where
  "select_model self kw body =
     (let model_id = join ''.'' (tl (split_on (CHR ''.'') (model body)))
      in case model_sources self of
           None \<Rightarrow> Inl (AttributeError ''model_sources'')
         | Some sources \<Rightarrow>
             (case map_of sources model_id of
                None \<Rightarrow> Inl (KeyError model_id)
              | Some source \<Rightarrow>
                  if source = ''openai'' then
                    (case openai_kwargs kw of
                       None \<Rightarrow> Inl (AssertionError ''OpenAI API'')
                     | Some k \<Rightarrow> Inr (ChatOpenAI model_id k))
                  else
                    (case ollama_kwargs kw of
                       None \<Rightarrow> Inl (AssertionError ''Ollama API'')
                     | Some k \<Rightarrow> Inr (ChatOllama model_id k))))"

text \<open>Lines 181 to 186: the trace callbacks, with the caller's id when there is a caller.\<close>

definition make_callbacks ::
  "kwargs \<Rightarrow> (string \<times> pyval) list option \<Rightarrow> pipe_error + callback list" where
  "make_callbacks kw user =
     (case langfuse_kwargs kw of
        None \<Rightarrow> Inr []
      | Some lf \<Rightarrow>
          (case user of
             None \<Rightarrow> Inr [CallbackHandler lf None]
           | Some u \<Rightarrow>
               if u = [] then Inr [CallbackHandler lf None]
               else (case map_of u ''id'' of
                       None \<Rightarrow> Inl (KeyError ''id'')
                     | Some uid \<Rightarrow> Inr [CallbackHandler lf (Some uid)])))"

text \<open>The turn without tools: every chunk's content is yielded as it comes.\<close>

definition passthrough :: "string list \<times> stream_end \<Rightarrow> effect list \<times> outcome" where
  "passthrough stream =
     (map Yield (fst stream),
      case snd stream of Exhausted \<Rightarrow> Completed | StreamRaises \<Rightarrow> Raised BackendError)"

text \<open>
  Lines 208 to 218: one \<^verbatim>\<open>StructuredTool\<close> for each entry of the tools, in the order of the
  dict; the first constructor that raises ends the turn before any stream is opened.
\<close>

fun build_tools :: "backend \<Rightarrow> (string \<times> tool_value) list \<Rightarrow> pipe_error + structured_tool list" where
  "build_tools be [] = Inr []"
| "build_tools be ((key, value) # rest) =
     (case structured_tool be key value of
        Inl err \<Rightarrow> Inl err
      | Inr t \<Rightarrow>
          (case build_tools be rest of
             Inl err \<Rightarrow> Inl err
           | Inr ts \<Rightarrow> Inr (t # ts)))"

definition pipe ::
  "(string \<Rightarrow> nat) \<Rightarrow> backend \<Rightarrow> pipe_self \<Rightarrow> request_body \<Rightarrow> (string \<times> pyval) list option \<Rightarrow> string option
     \<Rightarrow> (string \<times> tool_value) list option \<Rightarrow> emitter option \<Rightarrow> effect list \<times> outcome" where
  "pipe slot be self body user task tools event_emitter =
     (let message_id = fst (extract_event_info event_emitter)
      in if task = Some ''function_calling'' then ([], Completed)
         else
           (case pipe_setup (self_valves self) of
              Inl err \<Rightarrow> ([], Raised err)
            | Inr kw \<Rightarrow>
                (case select_model self kw body of
                   Inl err \<Rightarrow> ([], Raised err)
                 | Inr m \<Rightarrow>
                     (case make_callbacks kw user of
                        Inl err \<Rightarrow> ([], Raised err)
                      | Inr cbs \<Rightarrow>
                          if task = Some ''title_generation'' then
                            (case model_invoke be m (messages body)
                                    \<lparr>callbacks = cbs, run_id = None\<rparr> of
                               Inl err \<Rightarrow> ([], Raised err)
                             | Inr content \<Rightarrow> ([Yield content], Completed))
                          else if tools = None \<or> tools = Some [] then
                            passthrough (model_astream be m (messages body)
                              \<lparr>callbacks = cbs, run_id = Some message_id\<rparr>)
                          else
                            (case build_tools be (the tools) of
                               Inl err \<Rightarrow> ([], Raised err)
                             | Inr ts \<Rightarrow>
                                 tools_turn slot event_emitter
                                   (graph_astream_events be m ts (messages body)
                                      \<lparr>callbacks = cbs, run_id = Some message_id\<rparr>))))))"

section \<open>Reading streams and traces\<close>


definition is_tool_end :: "event \<Rightarrow> bool" where
  "is_tool_end ev = (kind ev = ''on_tool_end'')"


definition tool_ends :: "event list \<Rightarrow> event list" where
  "tool_ends evs = filter is_tool_end evs"

text \<open>
  The fragments one event puts into the output: the content of a text delta that has
  content, a newline for a tool start, nothing otherwise.
\<close>

definition fragments :: "event \<Rightarrow> string list" where
  "fragments ev =
     (if kind ev = ''on_chat_model_stream'' then
        (case chunk (data ev) of None \<Rightarrow> [] | Some c \<Rightarrow> if c \<noteq> [] then [c] else [])
      else if kind ev = ''on_tool_start'' then [[CHR 0x0A]]
      else [])"


text \<open>What a trace shows: the output, the terminal statuses, the citations.\<close>

fun yielded :: "effect \<Rightarrow> string list" where
  "yielded (Yield s) = [s]"
| "yielded _ = []"

definition yields :: "effect list \<Rightarrow> string list" where
  "yields tr = concat (map yielded tr)"



fun is_citation :: "effect \<Rightarrow> bool" where
  "is_citation (Citation u t c) = True"
| "is_citation _ = False"

definition citations :: "effect list \<Rightarrow> effect list" where
  "citations tr = filter is_citation tr"

text \<open>
  The notifications the claims speak of, with their texts written out: the status
  \<^verbatim>\<open>Tool 'N' returned OUT\<close> of an \<^verbatim>\<open>on_tool_end\<close> event, the status \<^verbatim>\<open>Tool 'N' failed.\<close>,
  and the citation number \<open>k\<close> of an \<^verbatim>\<open>on_tool_end\<close> event. A missing input or output
  reads \<^verbatim>\<open>None\<close>.
\<close>

definition shown :: "string option \<Rightarrow> string" where
  "shown v = (case v of None \<Rightarrow> ''None'' | Some s \<Rightarrow> s)"

definition returned_status :: "event \<Rightarrow> effect" where
  "returned_status ev =
     Status (''Tool '' @ [CHR 0x27] @ name ev @ [CHR 0x27] @ '' returned ''
             @ shown (tool_output (data ev))) True"

definition failed_status :: "string \<Rightarrow> effect" where
  "failed_status nm =
     Status (''Tool '' @ [CHR 0x27] @ nm @ [CHR 0x27] @ '' failed.'') True"

definition citation_of :: "nat \<Rightarrow> event \<Rightarrow> effect" where
  "citation_of k ev =
     Citation (''Tool call '' @ str_nat k) (name ev)
       (''Tool '' @ [CHR 0x27] @ name ev @ [CHR 0x27] @ '' with inputs ''
        @ shown (tool_input (data ev)) @ '' returned '' @ shown (tool_output (data ev)))"

text \<open>
  The dictionary a notifier call hands to the emitter, and the place of the first call of
  a trace at which the emitter raises, the emitter's log being \<open>log\<close> before the trace.
\<close>

fun notifier_dict :: "effect \<Rightarrow> emitted option" where
  "notifier_dict (Yield s) = None"
| "notifier_dict (Status m d) = Some (StatusDict m d)"
| "notifier_dict (Citation u t c) = Some (SourceDict [c] [(u, False)] t)"

fun first_raise :: "emitter \<Rightarrow> emitted list \<Rightarrow> effect list \<Rightarrow> nat option" where
  "first_raise e log [] = None"
| "first_raise e log (x # xs) =
     (case notifier_dict x of
        None \<Rightarrow> map_option Suc (first_raise e log xs)
      | Some d \<Rightarrow>
          if em_raises e log d then Some 0
          else map_option Suc (first_raise e (log @ [d]) xs))"

text \<open>The chat id as the closure of the emitter holds it: in its first cell that is a dict.\<close>

fun is_dict :: "pyval \<Rightarrow> bool" where
  "is_dict (PyDict d) = True"
| "is_dict _ = False"

definition chat_id_of :: "emitter option \<Rightarrow> pyval" where
  "chat_id_of event_emitter =
     (case event_emitter of
        None \<Rightarrow> PyNone
      | Some e \<Rightarrow>
          (case em_closure e of
             None \<Rightarrow> PyNone
           | Some cells \<Rightarrow>
               (case find is_dict cells of
                  Some (PyDict d) \<Rightarrow> dict_get d ''chat_id''
                | _ \<Rightarrow> PyNone)))"

text \<open>Sample events, emitters and a sample configuration.\<close>

definition text_delta :: "string \<Rightarrow> event" where
  "text_delta c =
     \<lparr>kind = ''on_chat_model_stream'', name = ''ChatOpenAI'',
      data = \<lparr>chunk = Some c, tool_input = None, tool_output = None\<rparr>\<rparr>"

definition tool_start :: "string \<Rightarrow> event" where
  "tool_start nm =
     \<lparr>kind = ''on_tool_start'', name = nm,
      data = \<lparr>chunk = None, tool_input = None, tool_output = None\<rparr>\<rparr>"

definition tool_end :: "string \<Rightarrow> string \<Rightarrow> string \<Rightarrow> event" where
  "tool_end nm inp out =
     \<lparr>kind = ''on_tool_end'', name = nm,
      data = \<lparr>chunk = None, tool_input = Some inp, tool_output = Some out\<rparr>\<rparr>"

definition tool_error :: "string \<Rightarrow> event" where
  "tool_error nm =
     \<lparr>kind = ''on_tool_error'', name = nm,
      data = \<lparr>chunk = None, tool_input = None, tool_output = None\<rparr>\<rparr>"

definition raising_emitter :: emitter where
  "raising_emitter = \<lparr>em_closure = None, em_raises = (\<lambda>log d. True)\<rparr>"

definition flaky_emitter :: emitter where
  "flaky_emitter = \<lparr>em_closure = None, em_raises = (\<lambda>log d. length log = 1)\<rparr>"

definition host_emitter :: emitter where
  "host_emitter =
     \<lparr>em_closure = Some [PyOther,
        PyDict [(''chat_id'', PyStr ''c-17''), (''message_id'', PyStr ''m-4'')]],
      em_raises = (\<lambda>log d. False)\<rparr>"

definition sample_valves :: valves where
  "sample_valves =
     \<lparr>OPENAI_BASE_URL = ''https://api.openai.com/v1'', OPENAI_API_KEY = ''key'',
      OLLAMA_URL = [], LANGFUSE_SECRET_KEY = [], LANGFUSE_PUBLIC_KEY = [],
      LANGFUSE_URL = [], MODEL_PREFIX = ''ReAct'',
      ENABLED_MODELS = ''gpt-4o,gpt-4o-mini,gpt-4''\<rparr>"

definition sample_self :: pipe_self where
  "sample_self = \<lparr>self_valves = sample_valves, model_sources = Some [(''gpt-4o'', ''openai'')]\<rparr>"

definition sample_body :: request_body where
  "sample_body = \<lparr>model = ''react.gpt-4o'', messages = PyOther\<rparr>"

definition sample_tools :: "(string \<times> tool_value) list" where
  "sample_tools =
     [(''calculator'', \<lparr>callable = PyOther, pydantic_model = PyOther, description = PyStr ''adds''\<rparr>)]"

definition sample_backend :: backend where
  "sample_backend =
     \<lparr>structured_tool = (\<lambda>key value.
        Inr (StructuredTool key (callable value) (pydantic_model value) (description value))),
      model_invoke = (\<lambda>m msgs cfg. Inr ''A title''),
      model_astream = (\<lambda>m msgs cfg. ([''4''], Exhausted)),
      graph_astream_events = (\<lambda>m tools msgs cfg.
        ([tool_start ''calculator'', tool_end ''calculator'' ''{a:2,b:2}'' ''4'', text_delta ''4''],
         Exhausted))\<rparr>"

section \<open>Facts about the loop\<close>

lemmas texts =
  newline_def quote_def fmt_def running_msg_def returned_msg_def citation_url_def
  citation_content_def failed_msg_def shown_def returned_status_def failed_status_def
  citation_of_def

lemma emit_error: "emit em log d = Inl err \<Longrightarrow> err = EmitterError"
  by (auto simp: emit_def split: option.splits if_splits)

lemma tools_loop_append:
  "tools_loop em log st (xs @ ys) =
     (case tools_loop em log st xs of
        (t, Inl err) \<Rightarrow> (t, Inl err)
      | (t, Inr (log1, st1)) \<Rightarrow>
          (case tools_loop em log1 st1 ys of (t1, r) \<Rightarrow> (t @ t1, r)))"
  by (induction xs arbitrary: log st) (auto split: prod.splits sum.splits)

lemma tools_loop_reaches:
  assumes "tools_loop em log st pre = (t, Inr (log1, st1))"
  shows "tools_loop em log st (pre @ ev # post) =
           (case on_event em log1 st1 ev of
              (effs, Inl err) \<Rightarrow> (t @ effs, Inl err)
            | (effs, Inr (log2, st2)) \<Rightarrow>
                (case tools_loop em log2 st2 post of (t1, r) \<Rightarrow> (t @ effs @ t1, r)))"
  using assms by (simp add: tools_loop_append split: prod.splits sum.splits)








lemma send_failed_effects:
  "send_failed em log names = (effs, r) \<Longrightarrow>
     \<exists>k\<le>length names. effs = map failed_status (take k names)
        \<and> ((\<exists>x. r = Inr x) \<longrightarrow> k = length names)"
proof (induction names arbitrary: log effs r)
  case Nil
  then show ?case by auto
next
  case (Cons nm names)
  show ?case
  proof (cases "send_status em log (failed_msg nm) True")
    case (Inl err)
    with Cons.prems have "effs = map failed_status (take 1 (nm # names))" "r = Inl err"
      by (simp_all add: texts)
    moreover have "1 \<le> length (nm # names)" by simp
    ultimately show ?thesis by blast
  next
    case (Inr log1)
    obtain effs1 r1 where s: "send_failed em log1 names = (effs1, r1)"
      by (cases "send_failed em log1 names")
    from Cons.IH [OF s] obtain k where k: "k \<le> length names"
      "effs1 = map failed_status (take k names)" "(\<exists>x. r1 = Inr x) \<longrightarrow> k = length names"
      by blast
    from Cons.prems Inr s have "effs = failed_status nm # effs1" "r = r1"
      by (simp_all add: texts)
    with k have "Suc k \<le> length (nm # names)"
      "effs = map failed_status (take (Suc k) (nm # names))"
      "(\<exists>x. r = Inr x) \<longrightarrow> Suc k = length (nm # names)" by simp_all
    then show ?thesis by blast
  qed
qed




section \<open>The claims\<close>




text \<open>
  C6. Whenever the loop comes to an \<^verbatim>\<open>on_tool_start\<close> event, what it does for the event
  is: the separator, a single newline, is put into the output, and then the status
  \<^verbatim>\<open>Running tool {name}\<close> with \<^verbatim>\<open>done=false\<close> is sent to the Notifier, in this order; in
  the trace of the turn these two follow the effects of the events before.
\<close>

theorem separator_before_running_status:
  assumes "kind ev = ''on_tool_start''"
    and "tools_loop em [] initial_state pre = (tr_pre, Inr (log, st))"
  shows "fst (on_event em log st ev)
           = [Yield [CHR 0x0A], Status (''Running tool '' @ name ev) False]
       \<and> (\<exists>rest. fst (tools_turn slot em (pre @ ev # post, send))
             = tr_pre @ [Yield [CHR 0x0A], Status (''Running tool '' @ name ev) False] @ rest)"
proof -
  have step: "fst (on_event em log st ev)
      = [Yield [CHR 0x0A], Status (''Running tool '' @ name ev) False]"
    using assms(1) by (simp add: on_event_def newline_def running_msg_def split: sum.splits)
  obtain effs r where oe: "on_event em log st ev = (effs, r)" by (cases "on_event em log st ev")
  with step have effs: "effs = [Yield [CHR 0x0A], Status (''Running tool '' @ name ev) False]"
    by simp
  have "\<exists>rest r'. tools_loop em [] initial_state (pre @ ev # post) = (tr_pre @ effs @ rest, r')"
    using tools_loop_reaches [OF assms(2), of ev post] oe
    by (cases r) (auto split: prod.splits)
  then obtain rest r' where
    l: "tools_loop em [] initial_state (pre @ ev # post) = (tr_pre @ effs @ rest, r')" by blast
  have "\<exists>rest'. fst (tools_turn slot em (pre @ ev # post, send)) = tr_pre @ effs @ rest'"
    using l by (auto simp: tools_turn_def split: prod.splits sum.splits stream_end.splits)
  with step effs show ?thesis by simp
qed

theorem separator_before_running_status_witness:
  "kind (tool_start ''calc'') = ''on_tool_start''
   \<and> tools_loop None [] initial_state [text_delta ''Let me see.'']
       = ([Yield ''Let me see.''], Inr ([], initial_state))
   \<and> fst (on_event None [] initial_state (tool_start ''calc''))
       = [Yield [CHR 0x0A], Status ''Running tool calc'' False]
   \<and> (\<exists>rest. fst (tools_turn length None
                     ([text_delta ''Let me see.''] @ tool_start ''calc'' # [], Exhausted))
         = [Yield ''Let me see.''] @ [Yield [CHR 0x0A], Status ''Running tool calc'' False] @ rest)"
proof -
  have k: "kind (tool_start ''calc'') = ''on_tool_start''" by (simp add: tool_start_def)
  have l: "tools_loop None [] initial_state [text_delta ''Let me see.'']
       = ([Yield ''Let me see.''], Inr ([], initial_state))"
    by (simp add: on_event_def text_delta_def)
  from separator_before_running_status [OF k l, of length "[]" Exhausted] k l show ?thesis
    by (simp add: tool_start_def)
qed

text \<open>
  C7. A turn whose task is the function-calling probe returns at once: nothing is
  yielded, no Notifier call is made and no back end is invoked, whatever the valves, the
  request body, the caller, the tools and the emitter are.
\<close>

theorem function_calling_probe_is_silent:
  assumes "task = Some ''function_calling''"
  shows "pipe slot be self body user task tools event_emitter = ([], Completed)"
  using assms by (simp add: pipe_def Let_def)

theorem function_calling_probe_is_silent_witness:
  "pipe length sample_backend sample_self sample_body None (Some ''function_calling'')
     (Some sample_tools) (Some raising_emitter) = ([], Completed)"
  using function_calling_probe_is_silent
    [of "Some ''function_calling''" length sample_backend sample_self sample_body None
        "Some sample_tools" "Some raising_emitter"]
  by simp

lemma closure_info_find:
  "fst (closure_info cells)
     = (case find is_dict cells of Some (PyDict d) \<Rightarrow> dict_get d ''chat_id'' | _ \<Rightarrow> PyNone)"
  by (induction cells rule: closure_info.induct) simp_all

text \<open>
  C9. The first component of \<^verbatim>\<open>extract_event_info\<close> is the \<^verbatim>\<open>chat_id\<close> entry of the first
  cell of the emitter's closure that holds a dict; the result is \<^verbatim>\<open>(None, None)\<close> when
  there is no emitter or the emitter has no closure; and this first component is what the
  pipe passes as \<^verbatim>\<open>run_id\<close> to the streaming call of the back end, on the path without
  tools and, once the tools are wrapped, on the path with tools.
\<close>

theorem run_id_is_chat_id:
  "fst (extract_event_info event_emitter) = chat_id_of event_emitter
   \<and> (event_emitter = None \<longrightarrow> extract_event_info event_emitter = (PyNone, PyNone))
   \<and> (\<forall>e. event_emitter = Some e \<and> (em_closure e = None \<or> em_closure e = Some [])
          \<longrightarrow> extract_event_info event_emitter = (PyNone, PyNone))
   \<and> (task \<noteq> Some ''function_calling'' \<and> task \<noteq> Some ''title_generation''
        \<and> pipe_setup (self_valves self) = Inr kw \<and> select_model self kw body = Inr m
        \<and> make_callbacks kw user = Inr cbs
      \<longrightarrow> pipe slot be self body user task tools event_emitter
          = (if tools = None \<or> tools = Some [] then
               passthrough (model_astream be m (messages body)
                 \<lparr>callbacks = cbs, run_id = Some (chat_id_of event_emitter)\<rparr>)
             else
               (case build_tools be (the tools) of
                  Inl err \<Rightarrow> ([], Raised err)
                | Inr ts \<Rightarrow>
                    tools_turn slot event_emitter
                      (graph_astream_events be m ts (messages body)
                         \<lparr>callbacks = cbs, run_id = Some (chat_id_of event_emitter)\<rparr>))))"
proof -
  have a: "fst (extract_event_info event_emitter) = chat_id_of event_emitter"
    by (auto simp: extract_event_info_def chat_id_of_def closure_info_find
             split: option.splits)
  have b: "event_emitter = None \<longrightarrow> extract_event_info event_emitter = (PyNone, PyNone)"
    by (simp add: extract_event_info_def)
  have c: "\<forall>e. event_emitter = Some e \<and> (em_closure e = None \<or> em_closure e = Some [])
          \<longrightarrow> extract_event_info event_emitter = (PyNone, PyNone)"
    by (auto simp: extract_event_info_def)
  have d: "task \<noteq> Some ''function_calling'' \<and> task \<noteq> Some ''title_generation''
        \<and> pipe_setup (self_valves self) = Inr kw \<and> select_model self kw body = Inr m
        \<and> make_callbacks kw user = Inr cbs
      \<longrightarrow> pipe slot be self body user task tools event_emitter
          = (if tools = None \<or> tools = Some [] then
               passthrough (model_astream be m (messages body)
                 \<lparr>callbacks = cbs, run_id = Some (chat_id_of event_emitter)\<rparr>)
             else
               (case build_tools be (the tools) of
                  Inl err \<Rightarrow> ([], Raised err)
                | Inr ts \<Rightarrow>
                    tools_turn slot event_emitter
                      (graph_astream_events be m ts (messages body)
                         \<lparr>callbacks = cbs, run_id = Some (chat_id_of event_emitter)\<rparr>)))"
    using a by (simp add: pipe_def Let_def)
  from a b c d show ?thesis by blast
qed

theorem run_id_is_chat_id_witness:
  "fst (extract_event_info (Some host_emitter)) = PyStr ''c-17''
   \<and> extract_event_info None = (PyNone, PyNone)
   \<and> extract_event_info (Some raising_emitter) = (PyNone, PyNone)
   \<and> pipe length sample_backend sample_self sample_body None None (Some sample_tools)
         (Some host_emitter)
       = tools_turn length (Some host_emitter)
           (graph_astream_events sample_backend
              (ChatOpenAI ''gpt-4o'' (''https://api.openai.com/v1'', ''key''))
              [StructuredTool ''calculator'' PyOther PyOther (PyStr ''adds'')] PyOther
              \<lparr>callbacks = [], run_id = Some (PyStr ''c-17'')\<rparr>)"
proof -
  have s: "pipe_setup (self_valves sample_self)
             = Inr \<lparr>openai_kwargs = Some (''https://api.openai.com/v1'', ''key''),
                    ollama_kwargs = None, langfuse_kwargs = None\<rparr>"
    by (simp add: pipe_setup_def sample_self_def sample_valves_def)
  have m: "select_model sample_self
             \<lparr>openai_kwargs = Some (''https://api.openai.com/v1'', ''key''),
              ollama_kwargs = None, langfuse_kwargs = None\<rparr> sample_body
             = Inr (ChatOpenAI ''gpt-4o'' (''https://api.openai.com/v1'', ''key''))"
    by (simp add: select_model_def sample_self_def sample_body_def)
  have c: "make_callbacks
             \<lparr>openai_kwargs = Some (''https://api.openai.com/v1'', ''key''),
              ollama_kwargs = None, langfuse_kwargs = None\<rparr> None = Inr []"
    by (simp add: make_callbacks_def)
  have i: "chat_id_of (Some host_emitter) = PyStr ''c-17''"
    by (simp add: chat_id_of_def host_emitter_def dict_get_def)
  have r: "em_closure raising_emitter = None" by (simp add: raising_emitter_def)
  have t: "Some sample_tools \<noteq> Some []" by (simp add: sample_tools_def)
  have b: "build_tools sample_backend sample_tools
             = Inr [StructuredTool ''calculator'' PyOther PyOther (PyStr ''adds'')]"
    by (simp add: sample_tools_def sample_backend_def)
  have x: "extract_event_info (Some raising_emitter) = (PyNone, PyNone)"
    using run_id_is_chat_id [of "Some raising_emitter"] r by blast
  have y: "extract_event_info None = (PyNone, PyNone)"
    by (simp add: extract_event_info_def)
  show ?thesis
    using run_id_is_chat_id
      [of "Some host_emitter" None sample_self
          "\<lparr>openai_kwargs = Some (''https://api.openai.com/v1'', ''key''),
            ollama_kwargs = None, langfuse_kwargs = None\<rparr>"
          sample_body "ChatOpenAI ''gpt-4o'' (''https://api.openai.com/v1'', ''key'')"
          None "[]" length sample_backend "Some sample_tools"]
      s m c i t b x y
    by (simp add: sample_body_def)
qed

text \<open>
  C10. An event whose kind is none of \<^verbatim>\<open>on_chat_model_stream\<close>, \<^verbatim>\<open>on_tool_start\<close> and
  \<^verbatim>\<open>on_tool_end\<close> has no effect: nothing is yielded, no Notifier call is made (the
  emitter's log stays as it is), and the counter and the set of started tools are
  unchanged, so that the loop goes on as if the event had not come.
\<close>

theorem other_event_is_ignored:
  assumes "kind ev \<noteq> ''on_chat_model_stream''"
    and "kind ev \<noteq> ''on_tool_start''"
    and "kind ev \<noteq> ''on_tool_end''"
  shows "on_event em log st ev = ([], Inr (log, st))
       \<and> tools_loop em log st (ev # evs) = tools_loop em log st evs"
  using assms by (simp add: on_event_def split: prod.splits)

theorem other_event_is_ignored_witness:
  "kind (tool_error ''calc'') \<noteq> ''on_chat_model_stream''
   \<and> kind (tool_error ''calc'') \<noteq> ''on_tool_start''
   \<and> kind (tool_error ''calc'') \<noteq> ''on_tool_end''
   \<and> on_event (Some host_emitter) [] \<lparr>num_tool_calls = 2, started_tools = [''calc'']\<rparr>
         (tool_error ''calc'')
       = ([], Inr ([], \<lparr>num_tool_calls = 2, started_tools = [''calc'']\<rparr>))"
proof -
  have k: "kind (tool_error ''calc'') \<noteq> ''on_chat_model_stream''"
    "kind (tool_error ''calc'') \<noteq> ''on_tool_start''"
    "kind (tool_error ''calc'') \<noteq> ''on_tool_end''"
    by (simp_all add: tool_error_def)
  from other_event_is_ignored [OF k] k show ?thesis by blast
qed

lemma yields_append: "yields (a @ b) = yields a @ yields b"
  by (simp add: yields_def)

lemma on_event_yields: "yields (fst (on_event em log st ev)) = fragments ev"
  by (simp add: on_event_def fragments_def yields_def Let_def newline_def
        split: option.splits sum.splits)

lemma yields_failed: "yields (map failed_status names) = []"
  by (induction names) (simp_all add: yields_def failed_status_def)

lemma send_failed_yields: "yields (fst (send_failed em log names)) = []"
proof -
  obtain effs r where s: "send_failed em log names = (effs, r)"
    by (cases "send_failed em log names")
  from send_failed_effects [OF s] s show ?thesis by (auto simp: yields_failed)
qed

lemma loop_yields:
  "tools_loop em log st evs = (tr, r) \<Longrightarrow>
     \<exists>n\<le>length evs. yields tr = concat (map fragments (take n evs))
        \<and> (case r of
             Inr x \<Rightarrow> n = length evs
           | Inl err \<Rightarrow> 0 < n
               \<and> (\<exists>t1 log1 st1 effs.
                     tools_loop em log st (take (n - 1) evs) = (t1, Inr (log1, st1))
                     \<and> on_event em log1 st1 (evs ! (n - 1)) = (effs, Inl err)))"
proof (induction evs arbitrary: log st tr r)
  case Nil
  then have "tr = []" and "r = Inr (log, st)" by simp_all
  then show ?case by (simp add: yields_def)
next
  case (Cons ev evs)
  obtain effs r0 where oe: "on_event em log st ev = (effs, r0)"
    by (cases "on_event em log st ev")
  from on_event_yields [of em log st ev] oe have y: "yields effs = fragments ev" by simp
  show ?case
  proof (cases r0)
    case (Inl err)
    with Cons.prems oe have tr: "tr = effs" and r: "r = Inl err" by simp_all
    have "(1::nat) \<le> length (ev # evs)" by simp
    moreover have "yields tr = concat (map fragments (take 1 (ev # evs)))"
      using tr y by simp
    moreover have "tools_loop em log st (take (1 - 1) (ev # evs)) = ([], Inr (log, st))"
      by simp
    moreover have "on_event em log st ((ev # evs) ! (1 - 1)) = (effs, Inl err)"
      using oe Inl by simp
    ultimately show ?thesis unfolding r by (intro exI [of _ 1]) auto
  next
    case (Inr p)
    obtain logm stm where p: "p = (logm, stm)" by (cases p)
    obtain trm rm where l: "tools_loop em logm stm evs = (trm, rm)"
      by (cases "tools_loop em logm stm evs")
    with Cons.prems oe Inr p have tr: "tr = effs @ trm" and r: "r = rm" by simp_all
    from Cons.IH [OF l] obtain n where n: "n \<le> length evs"
      and yn: "yields trm = concat (map fragments (take n evs))"
      and cn: "case rm of
             Inr x \<Rightarrow> n = length evs
           | Inl err \<Rightarrow> 0 < n
               \<and> (\<exists>t1 log1 st1 effs.
                     tools_loop em logm stm (take (n - 1) evs) = (t1, Inr (log1, st1))
                     \<and> on_event em log1 st1 (evs ! (n - 1)) = (effs, Inl err))"
      by blast
    have a: "Suc n \<le> length (ev # evs)" using n by simp
    have b: "yields tr = concat (map fragments (take (Suc n) (ev # evs)))"
      using tr y yn by (simp add: yields_append)
    have c: "case r of
             Inr x \<Rightarrow> Suc n = length (ev # evs)
           | Inl err \<Rightarrow> 0 < Suc n
               \<and> (\<exists>t1 log1 st1 effs.
                     tools_loop em log st (take (Suc n - 1) (ev # evs)) = (t1, Inr (log1, st1))
                     \<and> on_event em log1 st1 ((ev # evs) ! (Suc n - 1)) = (effs, Inl err))"
    proof (cases rm)
      case (Inr x)
      with cn r show ?thesis by simp
    next
      case (Inl err)
      with cn obtain t1 log1 st1 effs1 where pos: "0 < n"
        and l1: "tools_loop em logm stm (take (n - 1) evs) = (t1, Inr (log1, st1))"
        and o1: "on_event em log1 st1 (evs ! (n - 1)) = (effs1, Inl err)" by auto
      from pos obtain k where k: "n = Suc k" by (cases n) auto
      have "tools_loop em log st (take (Suc n - 1) (ev # evs)) = (effs @ t1, Inr (log1, st1))"
        using oe Inr p l1 k by simp
      moreover have "on_event em log1 st1 ((ev # evs) ! (Suc n - 1)) = (effs1, Inl err)"
        using o1 k by simp
      ultimately show ?thesis using r Inl by auto
    qed
    from a b c show ?thesis by blast
  qed
qed

text \<open>
  C4. The output of a turn with tools is made, in the order of the stream, of the
  fragments of the events the loop has received: the content of every text delta, once and
  as it is (a chat model event without content has no text to give), and a single newline
  for every tool start. No fragment is left out, repeated or moved. The loop receives the
  whole stream, unless it raises while it processes an event: then it has received the
  events up to this one, and their fragments are the output.
\<close>

theorem text_deltas_yielded_in_order:
  "\<exists>n\<le>length evs.
       yields (fst (tools_turn slot em (evs, send))) = concat (map fragments (take n evs))
     \<and> (snd (tools_turn slot em (evs, send)) = Completed \<longrightarrow> n = length evs)
     \<and> (case snd (tools_loop em [] initial_state evs) of
          Inr x \<Rightarrow> n = length evs
        | Inl err \<Rightarrow> 0 < n
            \<and> (\<exists>t1 log1 st1 effs.
                  tools_loop em [] initial_state (take (n - 1) evs) = (t1, Inr (log1, st1))
                  \<and> on_event em log1 st1 (evs ! (n - 1)) = (effs, Inl err)))"
proof -
  obtain ltr r where l: "tools_loop em [] initial_state evs = (ltr, r)"
    by (cases "tools_loop em [] initial_state evs")
  from loop_yields [OF l] obtain n where n: "n \<le> length evs"
    and yn: "yields ltr = concat (map fragments (take n evs))"
    and cn: "case r of
          Inr x \<Rightarrow> n = length evs
        | Inl err \<Rightarrow> 0 < n
            \<and> (\<exists>t1 log1 st1 effs.
                  tools_loop em [] initial_state (take (n - 1) evs) = (t1, Inr (log1, st1))
                  \<and> on_event em log1 st1 (evs ! (n - 1)) = (effs, Inl err))"
    by blast
  have y: "yields (fst (tools_turn slot em (evs, send))) = yields ltr"
  proof (cases r)
    case (Inl err)
    with l show ?thesis by (simp add: tools_turn_def)
  next
    case (Inr p)
    obtain log st where p: "p = (log, st)" by (cases p)
    show ?thesis
    proof (cases send)
      case StreamRaises
      with l Inr p show ?thesis by (simp add: tools_turn_def)
    next
      case Exhausted
      obtain effs1 r1 where s: "send_failed em log (sort_key slot (started_tools st)) = (effs1, r1)"
        by (cases "send_failed em log (sort_key slot (started_tools st))")
      from send_failed_yields [of em log "sort_key slot (started_tools st)"] s
      have "yields effs1 = []" by simp
      with l Inr p Exhausted s show ?thesis
        by (simp add: tools_turn_def yields_append split: sum.splits)
    qed
  qed
  have c: "snd (tools_turn slot em (evs, send)) = Completed \<longrightarrow> n = length evs"
  proof
    assume "snd (tools_turn slot em (evs, send)) = Completed"
    with l have "\<exists>x. r = Inr x"
      by (auto simp: tools_turn_def split: sum.splits prod.splits stream_end.splits)
    with cn show "n = length evs" by auto
  qed
  from cn l have cn': "case snd (tools_loop em [] initial_state evs) of
          Inr x \<Rightarrow> n = length evs
        | Inl err \<Rightarrow> 0 < n
            \<and> (\<exists>t1 log1 st1 effs.
                  tools_loop em [] initial_state (take (n - 1) evs) = (t1, Inr (log1, st1))
                  \<and> on_event em log1 st1 (evs ! (n - 1)) = (effs, Inl err))"
    by simp
  from n yn y c cn' show ?thesis by auto
qed

theorem text_deltas_yielded_in_order_witness:
  "snd (tools_turn length None
          ([text_delta ''Let me '', tool_start ''calc'', text_delta ''check.''],
           Exhausted)) = Completed
   \<and> yields (fst (tools_turn length None
          ([text_delta ''Let me '', tool_start ''calc'', text_delta ''check.''],
           Exhausted)))
       = concat (map fragments
           [text_delta ''Let me '', tool_start ''calc'', text_delta ''check.''])
   \<and> concat (map fragments
           [text_delta ''Let me '', tool_start ''calc'', text_delta ''check.''])
       = [''Let me '', [CHR 0x0A], ''check.'']"
proof -
  let ?evs = "[text_delta ''Let me '', tool_start ''calc'', text_delta ''check.'']"
  have c: "snd (tools_turn length None (?evs, Exhausted)) = Completed"
    by (simp add: tools_turn_def initial_state_def on_event_def text_delta_def tool_start_def
          send_status_def emit_def set_add_def)
  from text_deltas_yielded_in_order [of ?evs length None Exhausted] obtain n where
    n: "n \<le> length ?evs"
      "yields (fst (tools_turn length None (?evs, Exhausted))) = concat (map fragments (take n ?evs))"
      "snd (tools_turn length None (?evs, Exhausted)) = Completed \<longrightarrow> n = length ?evs"
    by blast
  from n(3) c have "n = length ?evs" by blast
  with n(2) have y: "yields (fst (tools_turn length None (?evs, Exhausted)))
      = concat (map fragments ?evs)" by simp
  have f: "concat (map fragments ?evs) = [''Let me '', [CHR 0x0A], ''check.'']"
    by (simp add: fragments_def text_delta_def tool_start_def)
  from c y f show ?thesis by blast
qed

lemma citations_append: "citations (a @ b) = citations a @ citations b"
  by (simp add: citations_def)

lemma on_event_citations_other:
  assumes "kind ev \<noteq> ''on_tool_end''" and "on_event em log st ev = (effs, r)"
  shows "citations effs = []
       \<and> (\<forall>log1 st1. r = Inr (log1, st1) \<longrightarrow> num_tool_calls st1 = num_tool_calls st)"
  using assms
  by (auto simp: on_event_def citations_def split: if_splits option.splits sum.splits)

lemma on_event_citations_end:
  assumes "kind ev = ''on_tool_end''" and "on_event em log st ev = (effs, r)"
  shows "(citations effs = [] \<and> (\<exists>err. r = Inl err))
       \<or> (citations effs = [citation_of (num_tool_calls st + 1) ev]
            \<and> (\<forall>log1 st1. r = Inr (log1, st1)
                  \<longrightarrow> num_tool_calls st1 = num_tool_calls st + 1))"
  using assms
  by (auto simp: on_event_def citations_def Let_def texts
           split: if_splits option.splits sum.splits)

lemma loop_citations:
  "tools_loop em log st evs = (tr, r) \<Longrightarrow>
     length (citations tr) \<le> length (tool_ends evs)
   \<and> (\<forall>k<length (citations tr).
         citations tr ! k = citation_of (num_tool_calls st + Suc k) (tool_ends evs ! k))
   \<and> (\<forall>log1 st1. r = Inr (log1, st1) \<longrightarrow>
         length (citations tr) = length (tool_ends evs)
         \<and> num_tool_calls st1 = num_tool_calls st + length (tool_ends evs))"
proof (induction evs arbitrary: log st tr r)
  case Nil
  then have "tr = []" and "r = Inr (log, st)" by simp_all
  then show ?case by (simp add: citations_def tool_ends_def)
next
  case (Cons ev evs)
  obtain effs r0 where oe: "on_event em log st ev = (effs, r0)"
    by (cases "on_event em log st ev")
  show ?case
  proof (cases r0)
    case (Inl err)
    with Cons.prems oe have tr: "tr = effs" and r: "r = Inl err" by simp_all
    show ?thesis
    proof (cases "kind ev = ''on_tool_end''")
      case True
      from on_event_citations_end [OF True oe] tr r True show ?thesis
        by (auto simp: tool_ends_def is_tool_end_def)
    next
      case False
      from on_event_citations_other [OF False oe] tr r show ?thesis by simp
    qed
  next
    case (Inr p)
    obtain log1 st1 where p: "p = (log1, st1)" by (cases p)
    obtain trm rm where l: "tools_loop em log1 st1 evs = (trm, rm)"
      by (cases "tools_loop em log1 st1 evs")
    with Cons.prems oe Inr p have tr: "tr = effs @ trm" and r: "r = rm" by simp_all
    note ih = Cons.IH [OF l]
    show ?thesis
    proof (cases "kind ev = ''on_tool_end''")
      case True
      from on_event_citations_end [OF True oe] Inr p have
        c: "citations effs = [citation_of (num_tool_calls st + 1) ev]" and
        n: "num_tool_calls st1 = num_tool_calls st + 1" by auto
      have e: "tool_ends (ev # evs) = ev # tool_ends evs"
        using True by (simp add: tool_ends_def is_tool_end_def)
      have ct: "citations tr = citation_of (num_tool_calls st + 1) ev # citations trm"
        using tr c by (simp add: citations_append)
      from ih have ih1: "length (citations trm) \<le> length (tool_ends evs)"
        and ih2: "\<And>j. j < length (citations trm) \<Longrightarrow>
              citations trm ! j = citation_of (num_tool_calls st1 + Suc j) (tool_ends evs ! j)"
        and ih3: "\<And>log2 st2. rm = Inr (log2, st2) \<Longrightarrow>
              length (citations trm) = length (tool_ends evs)
              \<and> num_tool_calls st2 = num_tool_calls st1 + length (tool_ends evs)"
        by blast+
      have g1: "length (citations tr) \<le> length (tool_ends (ev # evs))"
        using ih1 by (simp add: e ct)
      have g2: "citations tr ! k = citation_of (num_tool_calls st + Suc k) (tool_ends (ev # evs) ! k)"
        if "k < length (citations tr)" for k
      proof (cases k)
        case 0
        then show ?thesis by (simp add: e ct)
      next
        case (Suc j)
        with that have "j < length (citations trm)" by (simp add: ct)
        from ih2 [OF this] show ?thesis by (simp add: e ct Suc n)
      qed
      have g3: "length (citations tr) = length (tool_ends (ev # evs))
              \<and> num_tool_calls st2 = num_tool_calls st + length (tool_ends (ev # evs))"
        if "r = Inr (log2, st2)" for log2 st2
        using ih3 [of log2 st2] that r by (simp add: e ct n)
      from g1 g2 g3 show ?thesis by blast
    next
      case False
      from on_event_citations_other [OF False oe] Inr p have
        c: "citations effs = []" and n: "num_tool_calls st1 = num_tool_calls st" by auto
      have e: "tool_ends (ev # evs) = tool_ends evs"
        using False by (simp add: tool_ends_def is_tool_end_def)
      have ct: "citations tr = citations trm" using tr c by (simp add: citations_append)
      from ih have ih1: "length (citations trm) \<le> length (tool_ends evs)"
        and ih2: "\<And>j. j < length (citations trm) \<Longrightarrow>
              citations trm ! j = citation_of (num_tool_calls st1 + Suc j) (tool_ends evs ! j)"
        and ih3: "\<And>log2 st2. rm = Inr (log2, st2) \<Longrightarrow>
              length (citations trm) = length (tool_ends evs)
              \<and> num_tool_calls st2 = num_tool_calls st1 + length (tool_ends evs)"
        by blast+
      have g1: "length (citations tr) \<le> length (tool_ends (ev # evs))"
        using ih1 by (simp add: e ct)
      have g2: "citations tr ! k = citation_of (num_tool_calls st + Suc k) (tool_ends (ev # evs) ! k)"
        if "k < length (citations tr)" for k
        using ih2 [of k] that by (simp add: e ct n)
      have g3: "length (citations tr) = length (tool_ends (ev # evs))
              \<and> num_tool_calls st2 = num_tool_calls st + length (tool_ends (ev # evs))"
        if "r = Inr (log2, st2)" for log2 st2
        using ih3 [of log2 st2] that r by (simp add: e ct n)
      from g1 g2 g3 show ?thesis by blast
    qed
  qed
qed

lemma citations_failed: "citations (map failed_status names) = []"
  by (induction names) (simp_all add: citations_def failed_status_def)

lemma send_failed_citations: "citations (fst (send_failed em log names)) = []"
proof -
  obtain effs r where s: "send_failed em log names = (effs, r)"
    by (cases "send_failed em log names")
  from send_failed_effects [OF s] s show ?thesis by (auto simp: citations_failed)
qed

text \<open>
  C5. In every turn with tools the citations the Notifier receives are numbered by
  completion: the citation in place \<open>k\<close> (counted from 0) belongs to the \<^verbatim>\<open>on_tool_end\<close>
  event in place \<open>k\<close> of the stream, whatever its tool name, and its source identifier is
  \<^verbatim>\<open>Tool call\<close> followed by the decimal digits of \<open>k + 1\<close>. When the turn completes every
  \<^verbatim>\<open>on_tool_end\<close> event has its citation.
\<close>

theorem citations_numbered_by_completion:
  "length (citations (fst (tools_turn slot em (evs, send)))) \<le> length (tool_ends evs)
   \<and> (\<forall>k<length (citations (fst (tools_turn slot em (evs, send)))).
         citations (fst (tools_turn slot em (evs, send))) ! k
           = Citation (''Tool call '' @ str_nat (Suc k)) (name (tool_ends evs ! k))
               (citation_content (name (tool_ends evs ! k))
                  (tool_input (data (tool_ends evs ! k)))
                  (tool_output (data (tool_ends evs ! k)))))
   \<and> (snd (tools_turn slot em (evs, send)) = Completed
        \<longrightarrow> length (citations (fst (tools_turn slot em (evs, send)))) = length (tool_ends evs))"
proof -
  obtain ltr r where l: "tools_loop em [] initial_state evs = (ltr, r)"
    by (cases "tools_loop em [] initial_state evs")
  have y: "citations (fst (tools_turn slot em (evs, send))) = citations ltr"
  proof (cases r)
    case (Inl err)
    with l show ?thesis by (simp add: tools_turn_def)
  next
    case (Inr p)
    obtain log st where p: "p = (log, st)" by (cases p)
    show ?thesis
    proof (cases send)
      case StreamRaises
      with l Inr p show ?thesis by (simp add: tools_turn_def)
    next
      case Exhausted
      obtain effs1 r1 where s: "send_failed em log (sort_key slot (started_tools st)) = (effs1, r1)"
        by (cases "send_failed em log (sort_key slot (started_tools st))")
      from send_failed_citations [of em log "sort_key slot (started_tools st)"] s
      have "citations effs1 = []" by simp
      with l Inr p Exhausted s show ?thesis
        by (simp add: tools_turn_def citations_append split: sum.splits)
    qed
  qed
  have c: "snd (tools_turn slot em (evs, send)) = Completed \<longrightarrow> (\<exists>log1 st1. r = Inr (log1, st1))"
    using l by (auto simp: tools_turn_def split: sum.splits prod.splits stream_end.splits)
  from loop_citations [OF l] y c show ?thesis
    by (auto simp: initial_state_def texts)
qed

theorem citations_numbered_by_completion_witness:
  "citations (fst (tools_turn length None
       ([tool_start ''search'', tool_start ''calc'', tool_end ''calc'' ''{a:2,b:2}'' ''4'',
         tool_end ''search'' ''q'' ''r''], Exhausted)))
     = [Citation ''Tool call 1'' ''calc''
          (citation_content ''calc'' (Some ''{a:2,b:2}'') (Some ''4'')),
        Citation ''Tool call 2'' ''search''
          (citation_content ''search'' (Some ''q'') (Some ''r''))]
   \<and> citations (fst (tools_turn length None
       ([tool_start ''search'', tool_start ''calc'', tool_end ''calc'' ''{a:2,b:2}'' ''4'',
         tool_end ''search'' ''q'' ''r''], Exhausted))) ! 1
     = Citation (''Tool call '' @ str_nat (Suc 1)) ''search''
          (citation_content ''search'' (Some ''q'') (Some ''r''))"
proof -
  let ?evs = "[tool_start ''search'', tool_start ''calc'', tool_end ''calc'' ''{a:2,b:2}'' ''4'',
         tool_end ''search'' ''q'' ''r'']"
  have s1: "str_nat (Suc 0) = ''1''"
    by (subst str_nat.simps) (simp add: digit_char_def)
  have s2: "str_nat (Suc (Suc 0)) = ''2''"
    by (subst str_nat.simps) (simp add: digit_char_def)
  have run: "citations (fst (tools_turn length None (?evs, Exhausted)))
     = [Citation ''Tool call 1'' ''calc''
          (citation_content ''calc'' (Some ''{a:2,b:2}'') (Some ''4'')),
        Citation ''Tool call 2'' ''search''
          (citation_content ''search'' (Some ''q'') (Some ''r''))]"
    by (simp add: tools_turn_def initial_state_def on_event_def tool_start_def tool_end_def
          send_status_def send_citation_def emit_def set_add_def citations_def citation_url_def
          Let_def s1 s2)
  have e: "tool_ends ?evs ! 1 = tool_end ''search'' ''q'' ''r''"
    by (simp add: tool_ends_def is_tool_end_def tool_start_def tool_end_def)
  have "1 < length (citations (fst (tools_turn length None (?evs, Exhausted))))"
    using run by simp
  with citations_numbered_by_completion [of length None ?evs Exhausted]
  have "citations (fst (tools_turn length None (?evs, Exhausted))) ! 1
           = Citation (''Tool call '' @ str_nat (Suc 1)) (name (tool_ends ?evs ! 1))
               (citation_content (name (tool_ends ?evs ! 1))
                  (tool_input (data (tool_ends ?evs ! 1)))
                  (tool_output (data (tool_ends ?evs ! 1))))"
    by blast
  then have "citations (fst (tools_turn length None (?evs, Exhausted))) ! 1
     = Citation (''Tool call '' @ str_nat (Suc 1)) ''search''
          (citation_content ''search'' (Some ''q'') (Some ''r''))"
    unfolding e by (simp add: tool_end_def)
  with run show ?thesis by blast
qed









lemma tools_turn_loop_raises:
  "tools_loop em [] initial_state evs = (tr, Inl err) \<Longrightarrow>
     tools_turn slot em (evs, send) = (tr, Raised err)"
  by (simp add: tools_turn_def)

lemma on_event_end_unmatched:
  assumes "kind ev = ''on_tool_end''" and "name ev \<notin> set (started_tools st)"
  shows "\<exists>err. on_event em log st ev =
     (case send_status em log
             (''Tool '' @ [CHR 0x27] @ name ev @ [CHR 0x27] @ '' returned ''
                @ shown (tool_output (data ev))) True of
        Inl e1 \<Rightarrow> ([returned_status ev], Inl err)
      | Inr log1 \<Rightarrow>
          (case send_citation em log1 (''Tool call '' @ str_nat (num_tool_calls st + 1)) (name ev)
                  (''Tool '' @ [CHR 0x27] @ name ev @ [CHR 0x27] @ '' with inputs ''
                     @ shown (tool_input (data ev)) @ '' returned ''
                     @ shown (tool_output (data ev))) of
             Inl e2 \<Rightarrow> ([returned_status ev, citation_of (num_tool_calls st + 1) ev], Inl err)
           | Inr log2 \<Rightarrow> ([returned_status ev, citation_of (num_tool_calls st + 1) ev], Inl err)))
     \<and> err = (case send_status em log
             (''Tool '' @ [CHR 0x27] @ name ev @ [CHR 0x27] @ '' returned ''
                @ shown (tool_output (data ev))) True of
        Inl e1 \<Rightarrow> e1
      | Inr log1 \<Rightarrow>
          (case send_citation em log1 (''Tool call '' @ str_nat (num_tool_calls st + 1)) (name ev)
                  (''Tool '' @ [CHR 0x27] @ name ev @ [CHR 0x27] @ '' with inputs ''
                     @ shown (tool_input (data ev)) @ '' returned ''
                     @ shown (tool_output (data ev))) of
             Inl e2 \<Rightarrow> e2
           | Inr log2 \<Rightarrow> KeyError (name ev)))"
  using assms
  by (auto simp: on_event_def Let_def texts split: sum.splits)

text \<open>
  C8. When the loop comes to an \<^verbatim>\<open>on_tool_end\<close> event for a name that is not in the set of
  started tools, the turn aborts while this event is processed, and nothing of the later
  events or of the final reconciliation is done. The status \<^verbatim>\<open>Tool 'N' returned OUT\<close> has
  always been sent. If this status call raises, it is the last effect and its error ends
  the turn; otherwise the citation is sent too and is the last effect, and the turn ends
  with the error of the citation call if that raises, and with the \<^verbatim>\<open>KeyError\<close> of the set
  removal if both Notifier calls return.
\<close>

theorem unmatched_tool_end_aborts:
  assumes "kind ev = ''on_tool_end''"
    and "tools_loop em [] initial_state pre = (tr_pre, Inr (log, st))"
    and "name ev \<notin> set (started_tools st)"
  shows "tools_turn slot em (pre @ ev # post, send) =
     (case send_status em log
             (''Tool '' @ [CHR 0x27] @ name ev @ [CHR 0x27] @ '' returned ''
                @ shown (tool_output (data ev))) True of
        Inl err \<Rightarrow> (tr_pre @ [returned_status ev], Raised err)
      | Inr log1 \<Rightarrow>
          (case send_citation em log1 (''Tool call '' @ str_nat (num_tool_calls st + 1)) (name ev)
                  (''Tool '' @ [CHR 0x27] @ name ev @ [CHR 0x27] @ '' with inputs ''
                     @ shown (tool_input (data ev)) @ '' returned ''
                     @ shown (tool_output (data ev))) of
             Inl err \<Rightarrow>
               (tr_pre @ [returned_status ev, citation_of (num_tool_calls st + 1) ev], Raised err)
           | Inr log2 \<Rightarrow>
               (tr_pre @ [returned_status ev, citation_of (num_tool_calls st + 1) ev],
                Raised (KeyError (name ev)))))"
proof -
  from on_event_end_unmatched [OF assms(1,3), of em log] obtain effs err where
    oe: "on_event em log st ev = (effs, Inl err)" and
    shape: "(effs, Raised err) =
     (case send_status em log
             (''Tool '' @ [CHR 0x27] @ name ev @ [CHR 0x27] @ '' returned ''
                @ shown (tool_output (data ev))) True of
        Inl err \<Rightarrow> ([returned_status ev], Raised err)
      | Inr log1 \<Rightarrow>
          (case send_citation em log1 (''Tool call '' @ str_nat (num_tool_calls st + 1)) (name ev)
                  (''Tool '' @ [CHR 0x27] @ name ev @ [CHR 0x27] @ '' with inputs ''
                     @ shown (tool_input (data ev)) @ '' returned ''
                     @ shown (tool_output (data ev))) of
             Inl err \<Rightarrow>
               ([returned_status ev, citation_of (num_tool_calls st + 1) ev], Raised err)
           | Inr log2 \<Rightarrow>
               ([returned_status ev, citation_of (num_tool_calls st + 1) ev],
                Raised (KeyError (name ev)))))"
    by (auto split: sum.splits)
  from tools_loop_reaches [OF assms(2), of ev post] oe
  have "tools_loop em [] initial_state (pre @ ev # post) = (tr_pre @ effs, Inl err)" by simp
  then have "tools_turn slot em (pre @ ev # post, send) = (tr_pre @ effs, Raised err)"
    by (rule tools_turn_loop_raises)
  with shape show ?thesis by (auto split: sum.splits)
qed

theorem unmatched_tool_end_aborts_witness:
  "kind (tool_end ''calc'' ''{a:2,b:2}'' ''4'') = ''on_tool_end''
   \<and> tools_loop None [] initial_state [tool_start ''calc'', tool_end ''calc'' ''{a:2,b:2}'' ''4'']
       = ([Yield [CHR 0x0A], Status ''Running tool calc'' False,
           Status (''Tool '' @ [CHR 0x27] @ ''calc'' @ [CHR 0x27] @ '' returned 4'') True,
           Citation ''Tool call 1'' ''calc''
             (''Tool '' @ [CHR 0x27] @ ''calc'' @ [CHR 0x27] @ '' with inputs {a:2,b:2} returned 4'')],
          Inr ([], \<lparr>num_tool_calls = 1, started_tools = []\<rparr>))
   \<and> tools_turn length None
        ([tool_start ''calc'', tool_end ''calc'' ''{a:2,b:2}'' ''4'']
           @ tool_end ''calc'' ''{a:2,b:2}'' ''4'' # [text_delta ''4''], Exhausted)
       = ([Yield [CHR 0x0A], Status ''Running tool calc'' False,
           Status (''Tool '' @ [CHR 0x27] @ ''calc'' @ [CHR 0x27] @ '' returned 4'') True,
           Citation ''Tool call 1'' ''calc''
             (''Tool '' @ [CHR 0x27] @ ''calc'' @ [CHR 0x27] @ '' with inputs {a:2,b:2} returned 4'')]
          @ [Status (''Tool '' @ [CHR 0x27] @ ''calc'' @ [CHR 0x27] @ '' returned 4'') True,
             Citation ''Tool call 2'' ''calc''
               (''Tool '' @ [CHR 0x27] @ ''calc'' @ [CHR 0x27] @ '' with inputs {a:2,b:2} returned 4'')],
          Raised (KeyError ''calc''))"
proof -
  let ?e = "tool_end ''calc'' ''{a:2,b:2}'' ''4''"
  let ?st = "\<lparr>num_tool_calls = 1, started_tools = []\<rparr>"
  let ?tp = "[Yield [CHR 0x0A], Status ''Running tool calc'' False,
           Status (''Tool '' @ [CHR 0x27] @ ''calc'' @ [CHR 0x27] @ '' returned 4'') True,
           Citation ''Tool call 1'' ''calc''
             (''Tool '' @ [CHR 0x27] @ ''calc'' @ [CHR 0x27] @ '' with inputs {a:2,b:2} returned 4'')]"
  have s1: "str_nat (Suc 0) = ''1''"
    by (subst str_nat.simps) (simp add: digit_char_def)
  have s2: "str_nat (Suc (Suc 0)) = ''2''"
    by (subst str_nat.simps) (simp add: digit_char_def)
  have k: "kind ?e = ''on_tool_end''" by (simp add: tool_end_def)
  have l: "tools_loop None [] initial_state [tool_start ''calc'', ?e] = (?tp, Inr ([], ?st))"
    by (simp add: initial_state_def on_event_def tool_start_def tool_end_def
          send_status_def send_citation_def emit_def set_add_def Let_def s1
          newline_def quote_def fmt_def running_msg_def returned_msg_def citation_url_def
          citation_content_def)
  have n: "name ?e \<notin> set (started_tools ?st)" by simp
  from unmatched_tool_end_aborts [OF k l n, of length "[text_delta ''4'']" Exhausted]
  have "tools_turn length None ([tool_start ''calc'', ?e] @ ?e # [text_delta ''4''], Exhausted)
       = (?tp @ [returned_status ?e, citation_of (num_tool_calls ?st + 1) ?e],
          Raised (KeyError (name ?e)))"
    by (simp add: send_status_def send_citation_def emit_def)
  then have "tools_turn length None
       ([tool_start ''calc'', ?e] @ ?e # [text_delta ''4''], Exhausted)
       = (?tp @ [Status (''Tool '' @ [CHR 0x27] @ ''calc'' @ [CHR 0x27] @ '' returned 4'') True,
             Citation ''Tool call 2'' ''calc''
               (''Tool '' @ [CHR 0x27] @ ''calc'' @ [CHR 0x27] @ '' with inputs {a:2,b:2} returned 4'')],
          Raised (KeyError ''calc''))"
    by (simp add: tool_end_def returned_status_def citation_of_def shown_def s2)
  with k l show ?thesis by blast
qed

theorem raising_notifier_hides_key_error:
  "tools_turn length (Some raising_emitter) ([tool_end ''calc'' ''{a:2,b:2}'' ''4''], Exhausted)
     = ([Status (''Tool '' @ [CHR 0x27] @ ''calc'' @ [CHR 0x27] @ '' returned 4'') True],
        Raised EmitterError)"
  by (simp add: tools_turn_def initial_state_def on_event_def tool_end_def
        send_status_def emit_def raising_emitter_def Let_def quote_def fmt_def returned_msg_def)

lemma map_filter_app: "List.map_filter f (a @ b) = List.map_filter f a @ List.map_filter f b"
  by (simp add: List.map_filter_def)

lemma first_raise_append_Some:
  "first_raise e log a = Some i \<Longrightarrow> first_raise e log (a @ b) = Some i"
  by (induction a arbitrary: log i) (auto split: option.splits if_splits)

lemma first_raise_append_None:
  "first_raise e log a = None \<Longrightarrow>
     first_raise e log (a @ b) =
       (case first_raise e (log @ List.map_filter notifier_dict a) b of
          None \<Rightarrow> None
        | Some j \<Rightarrow> Some (length a + j))"
proof (induction a arbitrary: log)
  case Nil
  show ?case by (simp split: option.splits)
next
  case (Cons x xs)
  show ?case
  proof (cases "notifier_dict x")
    case None
    with Cons.prems have "first_raise e log xs = None" by simp
    from Cons.IH [OF this] None show ?thesis by (simp split: option.splits)
  next
    case (Some d)
    with Cons.prems have "\<not> em_raises e log d" and "first_raise e (log @ [d]) xs = None"
      by (simp_all split: if_splits)
    from Cons.IH [OF this(2)] this(1) Some show ?thesis by (simp split: option.splits)
  qed
qed

lemma emit_first_raise:
  assumes "notifier_dict x = Some d"
  shows "emit (Some e) log d = Inl EmitterError \<and> first_raise e log [x] = Some 0
       \<or> emit (Some e) log d = Inr (log @ [d]) \<and> first_raise e log [x] = None"
  using assms by (simp add: emit_def)

lemma on_event_first_raise:
  assumes "on_event (Some e) log st ev = (effs, r)"
  shows "case first_raise e log effs of
           None \<Rightarrow> r \<noteq> Inl EmitterError
             \<and> (\<forall>log1 st1. r = Inr (log1, st1)
                   \<longrightarrow> log1 = log @ List.map_filter notifier_dict effs)
         | Some i \<Rightarrow> Suc i = length effs \<and> r = Inl EmitterError"
  using assms
  by (auto simp: on_event_def Let_def send_status_def send_citation_def emit_def
        split: if_splits option.splits sum.splits)

lemma loop_first_raise:
  "tools_loop (Some e) log st evs = (tr, r) \<Longrightarrow>
     (case first_raise e log tr of
        None \<Rightarrow> r \<noteq> Inl EmitterError
          \<and> (\<forall>log1 st1. r = Inr (log1, st1)
                \<longrightarrow> log1 = log @ List.map_filter notifier_dict tr)
      | Some i \<Rightarrow> Suc i = length tr \<and> r = Inl EmitterError)"
proof (induction evs arbitrary: log st tr r)
  case Nil
  then have "tr = []" and "r = Inr (log, st)" by simp_all
  then show ?case by simp
next
  case (Cons ev evs)
  obtain effs r0 where oe: "on_event (Some e) log st ev = (effs, r0)"
    by (cases "on_event (Some e) log st ev")
  note step = on_event_first_raise [OF oe]
  show ?case
  proof (cases r0)
    case (Inl err)
    with Cons.prems oe have "tr = effs" and "r = r0" by simp_all
    with step show ?thesis by (simp split: option.splits)
  next
    case (Inr p)
    obtain log1 st1 where p: "p = (log1, st1)" by (cases p)
    obtain trm rm where l: "tools_loop (Some e) log1 st1 evs = (trm, rm)"
      by (cases "tools_loop (Some e) log1 st1 evs")
    with Cons.prems oe Inr p have tr: "tr = effs @ trm" and r: "r = rm" by simp_all
    from step Inr p have quiet: "first_raise e log effs = None"
      and log1: "log1 = log @ List.map_filter notifier_dict effs"
      by (auto split: option.splits)
    note ih = Cons.IH [OF l]
    show ?thesis
    proof (cases "first_raise e log1 trm")
      case None
      with first_raise_append_None [OF quiet, of trm] log1 tr
      have "first_raise e log tr = None" by simp
      moreover from ih None have "rm \<noteq> Inl EmitterError"
        and "\<forall>log2 st2. rm = Inr (log2, st2) \<longrightarrow> log2 = log1 @ List.map_filter notifier_dict trm"
        by simp_all
      ultimately show ?thesis using r tr log1 by (simp add: map_filter_app)
    next
      case (Some j)
      with first_raise_append_None [OF quiet, of trm] log1 tr
      have "first_raise e log tr = Some (length effs + j)" by simp
      moreover from ih Some have "Suc j = length trm" and "rm = Inl EmitterError" by simp_all
      ultimately show ?thesis using r tr by simp
    qed
  qed
qed

lemma send_failed_first_raise:
  "send_failed (Some e) log names = (effs, r) \<Longrightarrow>
     (case first_raise e log effs of
        None \<Rightarrow> r \<noteq> Inl EmitterError
      | Some i \<Rightarrow> Suc i = length effs \<and> r = Inl EmitterError)"
proof (induction names arbitrary: log effs r)
  case Nil
  then show ?case by auto
next
  case (Cons nm names)
  show ?case
  proof (cases "em_raises e log (StatusDict (failed_msg nm) True)")
    case True
    with Cons.prems show ?thesis by (auto simp: send_status_def emit_def)
  next
    case False
    obtain effs1 r1 where s: "send_failed (Some e) (log @ [StatusDict (failed_msg nm) True]) names
        = (effs1, r1)"
      by (cases "send_failed (Some e) (log @ [StatusDict (failed_msg nm) True]) names")
    with Cons.prems False have e: "effs = Status (failed_msg nm) True # effs1" and r: "r = r1"
      by (simp_all add: send_status_def emit_def)
    from Cons.IH [OF s] show ?thesis using False e r by (auto split: option.splits)
  qed
qed

lemma turn_first_raise:
  assumes "tools_turn slot (Some e) stream = (tr, out)"
  shows "case first_raise e [] tr of
           None \<Rightarrow> out \<noteq> Raised EmitterError
         | Some i \<Rightarrow> Suc i = length tr \<and> out = Raised EmitterError"
proof -
  obtain ltr r where l: "tools_loop (Some e) [] initial_state (fst stream) = (ltr, r)"
    by (cases "tools_loop (Some e) [] initial_state (fst stream)")
  note lf = loop_first_raise [OF l]
  show ?thesis
  proof (cases r)
    case (Inl err)
    with assms l have "tr = ltr" and "out = Raised err" by (simp_all add: tools_turn_def)
    with lf Inl show ?thesis by (auto split: option.splits)
  next
    case (Inr p)
    obtain log st where p: "p = (log, st)" by (cases p)
    from lf Inr p have quiet: "first_raise e [] ltr = None"
      and log: "log = List.map_filter notifier_dict ltr" by (auto split: option.splits)
    show ?thesis
    proof (cases "snd stream")
      case StreamRaises
      with assms l Inr p have "tr = ltr" and "out = Raised BackendError"
        by (simp_all add: tools_turn_def)
      with quiet show ?thesis by simp
    next
      case Exhausted
      obtain effs1 r1 where s: "send_failed (Some e) log (sort_key slot (started_tools st)) = (effs1, r1)"
        by (cases "send_failed (Some e) log (sort_key slot (started_tools st))")
      with assms l Inr p Exhausted have tr: "tr = ltr @ effs1"
        and out: "out = (case r1 of Inl err \<Rightarrow> Raised err | Inr x \<Rightarrow> Completed)"
        by (simp_all add: tools_turn_def split: sum.splits)
      note sf = send_failed_first_raise [OF s]
      show ?thesis
      proof (cases "first_raise e log effs1")
        case None
        with first_raise_append_None [OF quiet, of effs1] log tr
        have "first_raise e [] tr = None" by simp
        moreover from sf None out have "out \<noteq> Raised EmitterError"
          by (auto split: sum.splits)
        ultimately show ?thesis by simp
      next
        case (Some j)
        with first_raise_append_None [OF quiet, of effs1] log tr
        have "first_raise e [] tr = Some (length ltr + j)" by simp
        moreover from sf Some out have "Suc j = length effs1" and "out = Raised EmitterError"
          by simp_all
        ultimately show ?thesis using tr by simp
      qed
    qed
  qed
qed

lemma loop_no_emitter:
  "tools_loop None log st evs = (tr, r) \<Longrightarrow> r \<noteq> Inl EmitterError"
proof (induction evs arbitrary: log st tr r)
  case Nil
  then show ?case by auto
next
  case (Cons ev evs)
  obtain effs r0 where oe: "on_event None log st ev = (effs, r0)"
    by (cases "on_event None log st ev")
  then have r0: "r0 \<noteq> Inl EmitterError"
    by (auto simp: on_event_def Let_def send_status_def send_citation_def emit_def
          split: if_splits option.splits)
  show ?case
  proof (cases r0)
    case (Inl err)
    with Cons.prems oe r0 show ?thesis by auto
  next
    case (Inr p)
    with Cons.prems oe obtain log1 st1 trm where "tools_loop None log1 st1 evs = (trm, r)"
      by (auto split: prod.splits)
    from Cons.IH [OF this] show ?thesis .
  qed
qed

lemma send_failed_no_emitter:
  "send_failed None log names = (effs, r) \<Longrightarrow> r \<noteq> Inl EmitterError"
  by (induction names arbitrary: log effs r)
     (auto simp: send_status_def emit_def split: prod.splits)

text \<open>
  C2. What the emitter raises in a Notifier call is not caught. In a turn
  with tools and an emitter, the turn ends with the emitter's error exactly when a
  Notifier call raises, and that call is then the last effect of the turn: nothing is
  yielded and nothing is sent after it. Without an emitter the Notifier calls are silent
  and the turn never ends with the emitter's error.
\<close>

theorem notifier_failure_aborts_turn:
  "(case first_raise e [] (fst (tools_turn slot (Some e) stream)) of
      None \<Rightarrow> snd (tools_turn slot (Some e) stream) \<noteq> Raised EmitterError
    | Some i \<Rightarrow> Suc i = length (fst (tools_turn slot (Some e) stream))
        \<and> snd (tools_turn slot (Some e) stream) = Raised EmitterError)
   \<and> snd (tools_turn slot None stream) \<noteq> Raised EmitterError"
proof -
  have a: "case first_raise e [] (fst (tools_turn slot (Some e) stream)) of
      None \<Rightarrow> snd (tools_turn slot (Some e) stream) \<noteq> Raised EmitterError
    | Some i \<Rightarrow> Suc i = length (fst (tools_turn slot (Some e) stream))
        \<and> snd (tools_turn slot (Some e) stream) = Raised EmitterError"
    by (rule turn_first_raise) simp
  obtain ltr r where l: "tools_loop None [] initial_state (fst stream) = (ltr, r)"
    by (cases "tools_loop None [] initial_state (fst stream)")
  have b: "snd (tools_turn slot None stream) \<noteq> Raised EmitterError"
  proof (cases r)
    case (Inl err)
    with loop_no_emitter [OF l] l show ?thesis by (simp add: tools_turn_def)
  next
    case (Inr p)
    obtain log st where p: "p = (log, st)" by (cases p)
    obtain effs1 r1 where s: "send_failed None log (sort_key slot (started_tools st)) = (effs1, r1)"
      by (cases "send_failed None log (sort_key slot (started_tools st))")
    from send_failed_no_emitter [OF s] l Inr p s show ?thesis
      by (auto simp: tools_turn_def split: stream_end.splits sum.splits)
  qed
  from a b show ?thesis by blast
qed

theorem notifier_failure_aborts_turn_witness:
  "fst (tools_turn length (Some flaky_emitter)
          ([tool_start ''calc'', text_delta ''2+2'', tool_end ''calc'' ''{a:2,b:2}'' ''4'',
            text_delta ''=4''], Exhausted))
     = [Yield [CHR 0x0A], Status ''Running tool calc'' False, Yield ''2+2'',
        returned_status (tool_end ''calc'' ''{a:2,b:2}'' ''4'')]
   \<and> first_raise flaky_emitter []
         [Yield [CHR 0x0A], Status ''Running tool calc'' False, Yield ''2+2'',
          returned_status (tool_end ''calc'' ''{a:2,b:2}'' ''4'')] = Some 3
   \<and> snd (tools_turn length (Some flaky_emitter)
          ([tool_start ''calc'', text_delta ''2+2'', tool_end ''calc'' ''{a:2,b:2}'' ''4'',
            text_delta ''=4''], Exhausted)) = Raised EmitterError"
proof -
  let ?s = "([tool_start ''calc'', text_delta ''2+2'', tool_end ''calc'' ''{a:2,b:2}'' ''4'',
            text_delta ''=4''], Exhausted)"
  let ?tr = "[Yield [CHR 0x0A], Status ''Running tool calc'' False, Yield ''2+2'',
        returned_status (tool_end ''calc'' ''{a:2,b:2}'' ''4'')]"
  have f: "fst (tools_turn length (Some flaky_emitter) ?s) = ?tr"
    by (simp add: tools_turn_def initial_state_def on_event_def tool_start_def tool_end_def
          text_delta_def send_status_def emit_def set_add_def flaky_emitter_def Let_def texts)
  have r: "first_raise flaky_emitter [] ?tr = Some 3"
    by (simp add: flaky_emitter_def returned_status_def)
  from notifier_failure_aborts_turn [of length flaky_emitter ?s]
  have "case first_raise flaky_emitter [] (fst (tools_turn length (Some flaky_emitter) ?s)) of
      None \<Rightarrow> snd (tools_turn length (Some flaky_emitter) ?s) \<noteq> Raised EmitterError
    | Some i \<Rightarrow> Suc i = length (fst (tools_turn length (Some flaky_emitter) ?s))
        \<and> snd (tools_turn length (Some flaky_emitter) ?s) = Raised EmitterError"
    by blast
  then have "snd (tools_turn length (Some flaky_emitter) ?s) = Raised EmitterError"
    unfolding f r by simp
  with f r show ?thesis by blast
qed

theorem raising_notifier_aborts_text:
  "tools_turn length (Some raising_emitter) ([tool_start ''calc'', text_delta ''4''], Exhausted)
     = ([Yield [CHR 0x0A], Status ''Running tool calc'' False], Raised EmitterError)"
  by (simp add: tools_turn_def initial_state_def on_event_def tool_start_def
        send_status_def emit_def raising_emitter_def texts)

end
